theory Spec2Isabelle
  imports Main
begin

section \<open>Types (src/main.ts, lines 21-43)\<close>

text \<open>
  The three interfaces of the plugin. \<open>EditorConfig\<close> is the common descriptor handed to
  the menu builder and the launcher; \<open>CustomEditorConfig\<close> is what the settings store
  keeps for a user-defined editor; the elements of \<open>BUILT_IN_EDITORS\<close> have the type
  \<open>Omit<EditorConfig, "enabled" | "grouped">\<close>. Field names carry a one-letter prefix
  because the three shapes share their field names.
\<close>

record EditorConfig =
  e_id :: string
  e_name :: string
  e_appName :: string
  e_command :: string
  e_enabled :: bool
  e_grouped :: bool
  e_isBuiltIn :: bool

record CustomEditorConfig =
  c_id :: string
  c_name :: string
  c_appName :: string
  c_command :: string
  c_enabled :: bool
  c_grouped :: bool

record BuiltInEditor =
  b_id :: string
  b_name :: string
  b_appName :: string
  b_command :: string
  b_isBuiltIn :: bool

text \<open>The anonymous value type \<open>{ enabled: boolean; grouped: boolean }\<close> of the
  \<open>builtInEditors\<close> record.\<close>

record BuiltInEntry =
  s_enabled :: bool
  s_grouped :: bool

text \<open>\<open>builtInEditors\<close> is a JavaScript object used as a dictionary: a lookup of an
  absent key yields \<open>undefined\<close>, here \<open>None\<close>.\<close>

record PluginSettings =
  builtInEditors :: "string \<rightharpoonup> BuiltInEntry"
  customEditors :: "CustomEditorConfig list"

text \<open>What \<open>loadData()\<close> resolves to: \<open>null\<close> when nothing was ever saved (\<open>None\<close>),
  otherwise a JSON object in which either key may be absent.\<close>

record PersistedData =
  pd_builtInEditors :: "(string \<rightharpoonup> BuiltInEntry) option"
  pd_customEditors :: "CustomEditorConfig list option"

text \<open>A thrown JavaScript value: a \<open>TypeError\<close> from reading a property of
  \<open>undefined\<close>, or the rejection of \<open>execAsync\<close>.\<close>

datatype exec_outcome = Exit int | CommandNotFound | SpawnError

datatype js_error = TypeError string | ExecError exec_outcome


section \<open>Built-in editors and default settings (lines 49-62)\<close>

definition BUILT_IN_EDITORS :: "BuiltInEditor list" where
  "BUILT_IN_EDITORS =
    [ \<lparr>b_id = ''vscode'', b_name = ''VS Code'', b_appName = ''Visual Studio Code'',
        b_command = ''code'', b_isBuiltIn = True\<rparr>,
      \<lparr>b_id = ''cursor'', b_name = ''Cursor'', b_appName = ''Cursor'',
        b_command = ''cursor'', b_isBuiltIn = True\<rparr>,
      \<lparr>b_id = ''zed'', b_name = ''Zed'', b_appName = ''Zed'',
        b_command = ''zed'', b_isBuiltIn = True\<rparr>,
      \<lparr>b_id = ''windsurf'', b_name = ''Windsurf'', b_appName = ''Windsurf'',
        b_command = ''windsurf'', b_isBuiltIn = True\<rparr>,
      \<lparr>b_id = ''antygravity'', b_name = ''Antygravity'', b_appName = ''Antygravity'',
        b_command = ''antygravity'', b_isBuiltIn = True\<rparr> ]"

text \<open>\<open>Object.fromEntries\<close>: the pairs are written into a fresh object from left to
  right, a later pair overwriting an earlier one with the same key.\<close>

fun fromEntries :: "(string \<times> 'v) list \<Rightarrow> (string \<rightharpoonup> 'v) \<Rightarrow> (string \<rightharpoonup> 'v)" where
  "fromEntries [] obj = obj"
| "fromEntries ((k, v) # rest) obj = fromEntries rest (obj(k \<mapsto> v))"

definition DEFAULT_SETTINGS :: PluginSettings where
  "DEFAULT_SETTINGS =
    \<lparr> builtInEditors =
        fromEntries (map (\<lambda>e. (b_id e, \<lparr>s_enabled = False, s_grouped = False\<rparr>)) BUILT_IN_EDITORS)
          Map.empty,
      customEditors = [] \<rparr>"


section \<open>loadSettings (lines 125-133)\<close>

text \<open>\<open>Object.assign({}, DEFAULT_SETTINGS, data)\<close> is a shallow merge: a top-level key
  present in \<open>data\<close> replaces the default's value whole, and a \<open>null\<close> source is
  skipped.\<close>

definition object_assign :: "PluginSettings \<Rightarrow> PersistedData option \<Rightarrow> PluginSettings" where
  "object_assign defaults data =
    (case data of
       None \<Rightarrow> defaults
     | Some d \<Rightarrow>
         \<lparr> builtInEditors =
             (case pd_builtInEditors d of None \<Rightarrow> builtInEditors defaults | Some m \<Rightarrow> m),
           customEditors =
             (case pd_customEditors d of None \<Rightarrow> customEditors defaults | Some cs \<Rightarrow> cs) \<rparr>)"

text \<open>The loop of lines 128-132. A stored entry is an object, hence truthy, so
  \<open>!this.settings.builtInEditors[editor.id]\<close> holds exactly for an absent key.\<close>

fun backfill :: "BuiltInEditor list \<Rightarrow> (string \<rightharpoonup> BuiltInEntry) \<Rightarrow> (string \<rightharpoonup> BuiltInEntry)" where
  "backfill [] entries = entries"
| "backfill (editor # rest) entries =
    (case entries (b_id editor) of
       None \<Rightarrow> backfill rest (entries(b_id editor \<mapsto> \<lparr>s_enabled = False, s_grouped = False\<rparr>))
     | Some _ \<Rightarrow> backfill rest entries)"

definition loadSettings :: "PersistedData option \<Rightarrow> PluginSettings" where
  "loadSettings data =
    (let settings = object_assign DEFAULT_SETTINGS data
     in settings\<lparr>builtInEditors := backfill BUILT_IN_EDITORS (builtInEditors settings)\<rparr>)"


section \<open>getEnabledEditors (lines 139-166)\<close>

text \<open>\<open>settings?.enabled\<close>: optional chaining yields \<open>undefined\<close>, which is falsy, when
  \<open>settings\<close> is \<open>undefined\<close>.\<close>

fun opt_chain_enabled :: "BuiltInEntry option \<Rightarrow> bool" where
  "opt_chain_enabled None = False"
| "opt_chain_enabled (Some entry) = s_enabled entry"

text \<open>\<open>settings.grouped\<close>: a plain property read throws a \<open>TypeError\<close> when
  \<open>settings\<close> is \<open>undefined\<close>.\<close>

fun read_grouped :: "BuiltInEntry option \<Rightarrow> js_error + bool" where
  "read_grouped None = Inl (TypeError ''Cannot read properties of undefined'')"
| "read_grouped (Some entry) = Inr (s_grouped entry)"

text \<open>\<open>{ ...editor, enabled: true, grouped: g }\<close>\<close>

definition spread_builtin :: "BuiltInEditor \<Rightarrow> bool \<Rightarrow> EditorConfig" where
  "spread_builtin editor g =
    \<lparr> e_id = b_id editor, e_name = b_name editor, e_appName = b_appName editor,
      e_command = b_command editor, e_enabled = True, e_grouped = g,
      e_isBuiltIn = b_isBuiltIn editor \<rparr>"

text \<open>The object literal of lines 153-161.\<close>

definition of_custom :: "CustomEditorConfig \<Rightarrow> EditorConfig" where
  "of_custom custom =
    \<lparr> e_id = c_id custom, e_name = c_name custom, e_appName = c_appName custom,
      e_command = c_command custom, e_enabled = True, e_grouped = c_grouped custom,
      e_isBuiltIn = False \<rparr>"

text \<open>The first loop (lines 143-148); \<open>editors\<close> is the array being filled.\<close>

fun builtin_loop ::
  "(string \<rightharpoonup> BuiltInEntry) \<Rightarrow> BuiltInEditor list \<Rightarrow> EditorConfig list \<Rightarrow> js_error + EditorConfig list"
where
  "builtin_loop entries [] editors = Inr editors"
| "builtin_loop entries (editor # rest) editors =
    (let settings = entries (b_id editor) in
     if opt_chain_enabled settings then
       (case read_grouped settings of
          Inl err \<Rightarrow> Inl err
        | Inr g \<Rightarrow> builtin_loop entries rest (editors @ [spread_builtin editor g]))
     else builtin_loop entries rest editors)"

text \<open>The second loop (lines 151-163).\<close>

fun custom_loop :: "CustomEditorConfig list \<Rightarrow> EditorConfig list \<Rightarrow> EditorConfig list" where
  "custom_loop [] editors = editors"
| "custom_loop (custom # rest) editors =
    (if c_enabled custom then custom_loop rest (editors @ [of_custom custom])
     else custom_loop rest editors)"

definition getEnabledEditors :: "PluginSettings \<Rightarrow> js_error + EditorConfig list" where
  "getEnabledEditors settings =
    (case builtin_loop (builtInEditors settings) BUILT_IN_EDITORS [] of
       Inl err \<Rightarrow> Inl err
     | Inr editors \<Rightarrow> Inr (custom_loop (customEditors settings) editors))"

text \<open>The order the specification gives for \<open>listEnabledEditors()\<close>, in its own words:
  the built-in editors whose settings entry has enabled = true, in declaration order and
  with the entry's grouped flag, followed by the custom editors with enabled = true, in
  stored order.\<close>

definition entry_enabled :: "PluginSettings \<Rightarrow> BuiltInEditor \<Rightarrow> bool" where
  "entry_enabled settings editor =
    (case builtInEditors settings (b_id editor) of None \<Rightarrow> False | Some entry \<Rightarrow> s_enabled entry)"

definition entry_grouped :: "PluginSettings \<Rightarrow> BuiltInEditor \<Rightarrow> bool" where
  "entry_grouped settings editor =
    (case builtInEditors settings (b_id editor) of None \<Rightarrow> False | Some entry \<Rightarrow> s_grouped entry)"

definition listEnabledEditors_spec :: "PluginSettings \<Rightarrow> EditorConfig list" where
  "listEnabledEditors_spec settings =
    map (\<lambda>editor. spread_builtin editor (entry_grouped settings editor))
      (filter (entry_enabled settings) BUILT_IN_EDITORS)
    @ map of_custom (filter c_enabled (customEditors settings))"


section \<open>addEditorMenuItems (lines 168-199)\<close>

text \<open>A reference to a vault file or folder (\<open>TAbstractFile\<close>; \<open>TFile\<close> is the subclass
  the launcher tests with \<open>instanceof\<close>).\<close>

datatype TAbstractFile = TFile (path: string) | TFolder (path: string)

text \<open>The closure \<open>() => this.openInEditor(editor, file)\<close>, as the pair of values it
  captures.\<close>

type_synonym handler = "EditorConfig \<times> TAbstractFile option"

text \<open>A menu entry as the host's builder leaves it: what \<open>setTitle\<close>, \<open>setIcon\<close>,
  \<open>onClick\<close> and \<open>setSubmenu\<close> recorded. A menu is the list of its entries in the order
  of the \<open>addItem\<close> calls.\<close>

datatype MenuItem =
  MenuItem (title: string) (icon: string) (onClick: "handler option")
    (submenu: "MenuItem list option")

type_synonym Menu = "MenuItem list"

text \<open>The callback of lines 177-181.\<close>

definition ungrouped_item :: "TAbstractFile option \<Rightarrow> EditorConfig \<Rightarrow> MenuItem" where
  "ungrouped_item file editor =
    MenuItem (''Open in '' @ e_name editor) ''code'' (Some (editor, file)) None"

text \<open>The callback of lines 190-195.\<close>

definition sub_item :: "TAbstractFile option \<Rightarrow> EditorConfig \<Rightarrow> MenuItem" where
  "sub_item file editor = MenuItem (e_name editor) ''code'' (Some (editor, file)) None"

text \<open>A \<open>for\<close> loop that calls \<open>addItem\<close> once per editor.\<close>

fun add_items :: "(EditorConfig \<Rightarrow> MenuItem) \<Rightarrow> EditorConfig list \<Rightarrow> Menu \<Rightarrow> Menu" where
  "add_items cb [] menu = menu"
| "add_items cb (editor # rest) menu = add_items cb rest (menu @ [cb editor])"

text \<open>The callback of lines 186-197: the parent entry, its submenu filled by the inner loop.\<close>

definition parent_item :: "TAbstractFile option \<Rightarrow> EditorConfig list \<Rightarrow> MenuItem" where
  "parent_item file groupedEditors =
    MenuItem ''Open in External Editor'' ''code'' None
      (Some (add_items (sub_item file) groupedEditors []))"

definition addEditorMenuItems ::
  "PluginSettings \<Rightarrow> Menu \<Rightarrow> TAbstractFile option \<Rightarrow> js_error + Menu"
where
  "addEditorMenuItems settings menu file =
    (case getEnabledEditors settings of
       Inl err \<Rightarrow> Inl err
     | Inr editors \<Rightarrow>
         if length editors = 0 then Inr menu
         else
           let groupedEditors = filter (\<lambda>e. e_grouped e) editors;
               ungroupedEditors = filter (\<lambda>e. \<not> e_grouped e) editors;
               menu1 = add_items (ungrouped_item file) ungroupedEditors menu
           in if length groupedEditors > 0
              then Inr (menu1 @ [parent_item file groupedEditors])
              else Inr menu1)"

text \<open>The \<open>files-menu\<close> listener of lines 83-87.\<close>

definition onFilesMenu :: "PluginSettings \<Rightarrow> Menu \<Rightarrow> TAbstractFile list \<Rightarrow> js_error + Menu" where
  "onFilesMenu settings menu files =
    (if length files > 0 then addEditorMenuItems settings menu (Some (files ! 0))
     else Inr menu)"

text \<open>Every click handler reachable from an entry, submenu entries included.\<close>

fun handlers :: "MenuItem \<Rightarrow> handler list" where
  "handlers (MenuItem t i h sub) =
    (case h of None \<Rightarrow> [] | Some c \<Rightarrow> [c])
    @ (case sub of None \<Rightarrow> [] | Some items \<Rightarrow> concat (map handlers items))"


section \<open>openInEditor (lines 201-235)\<close>

text \<open>What the plugin reads from its surroundings: \<open>process.platform\<close>, the vault
  adapter's \<open>getFullPath\<close> and \<open>basePath\<close>, and what the operating system does with a
  command line handed to \<open>exec\<close>.\<close>

record Host =
  platform :: string
  getFullPath :: "string \<Rightarrow> string"
  basePath :: string
  run :: "string \<Rightarrow> exec_outcome"

text \<open>What the plugin does to its surroundings: the command lines handed to \<open>exec\<close>,
  the notices shown and the lines written with \<open>console.error\<close>, each oldest first.\<close>

record World =
  exec_calls :: "string list"
  notices :: "string list"
  console_errors :: "(string \<times> js_error) list"

text \<open>\<open>promisify(exec)\<close>: the promise is fulfilled when the child exits with code 0 and
  rejected otherwise.\<close>

definition execAsync :: "Host \<Rightarrow> string \<Rightarrow> World \<Rightarrow> (js_error + unit) \<times> World" where
  "execAsync host command w =
    (let w1 = w\<lparr>exec_calls := exec_calls w @ [command]\<rparr> in
     case run host command of
       Exit code \<Rightarrow> if code = 0 then (Inr (), w1) else (Inl (ExecError (Exit code)), w1)
     | CommandNotFound \<Rightarrow> (Inl (ExecError CommandNotFound), w1)
     | SpawnError \<Rightarrow> (Inl (ExecError SpawnError), w1))"

definition Notice :: "string \<Rightarrow> World \<Rightarrow> World" where
  "Notice message w = w\<lparr>notices := notices w @ [message]\<rparr>"

definition console_error :: "string \<Rightarrow> js_error \<Rightarrow> World \<Rightarrow> World" where
  "console_error message err w = w\<lparr>console_errors := console_errors w @ [(message, err)]\<rparr>"

text \<open>Lines 203-212.\<close>

definition resolve_filePath :: "Host \<Rightarrow> TAbstractFile option \<Rightarrow> string" where
  "resolve_filePath host file =
    (case file of
       Some (TFile p) \<Rightarrow> getFullPath host p
     | Some (TFolder p) \<Rightarrow> getFullPath host p
     | None \<Rightarrow> basePath host)"

text \<open>Lines 214-225: the three template literals.\<close>

definition build_command :: "string \<Rightarrow> EditorConfig \<Rightarrow> string \<Rightarrow> string" where
  \<open>build_command plat editor filePath =
    (if plat = ''darwin'' then ''open -a "'' @ e_appName editor @ ''" "'' @ filePath @ ''"''
     else if plat = ''win32'' then ''"'' @ e_command editor @ ''" "'' @ filePath @ ''"''
     else e_command editor @ '' "'' @ filePath @ ''"'')\<close>

definition success_notice :: "EditorConfig \<Rightarrow> string" where
  "success_notice editor = ''Opening in '' @ e_name editor"

definition failure_notice :: "EditorConfig \<Rightarrow> string" where
  "failure_notice editor =
    ''Failed to open in '' @ e_name editor @ ''. Make sure '' @ e_name editor @ '' is installed.''"

text \<open>The \<open>try\<close> block: an exception leaves it at the \<open>await\<close>, before the success
  notice.\<close>

definition openInEditor_try ::
  "Host \<Rightarrow> EditorConfig \<Rightarrow> TAbstractFile option \<Rightarrow> World \<Rightarrow> (js_error + unit) \<times> World"
where
  "openInEditor_try host editor file w =
    (let filePath = resolve_filePath host file;
         command = build_command (platform host) editor filePath
     in case execAsync host command w of
          (Inl err, w1) \<Rightarrow> (Inl err, w1)
        | (Inr _, w1) \<Rightarrow> (Inr (), Notice (success_notice editor) w1))"

text \<open>The whole method: the \<open>catch\<close> block logs, shows the failure notice and falls
  through, so the promise the method returns is fulfilled.\<close>

definition openInEditor ::
  "Host \<Rightarrow> EditorConfig \<Rightarrow> TAbstractFile option \<Rightarrow> World \<Rightarrow> (js_error + unit) \<times> World"
where
  "openInEditor host editor file w =
    (case openInEditor_try host editor file w of
       (Inr v, w1) \<Rightarrow> (Inr v, w1)
     | (Inl err, w1) \<Rightarrow>
         (Inr (),
          Notice (failure_notice editor)
            (console_error (''Error opening in '' @ e_name editor @ '':'') err w1)))"

text \<open>Activating a menu entry calls its click handler.\<close>

definition invoke :: "Host \<Rightarrow> handler \<Rightarrow> World \<Rightarrow> (js_error + unit) \<times> World" where
  "invoke host h w = (case h of (editor, file) \<Rightarrow> openInEditor host editor file w)"


section \<open>Adding a custom editor (lines 279-290)\<close>

text \<open>\<open>Date.now()\<close> is an integral number of milliseconds, far below \<open>1e21\<close> in absolute
  value, so the template literal renders it in plain decimal notation.\<close>

definition digit_char :: "nat \<Rightarrow> char" where
  "digit_char d = ''0123456789'' ! d"

function digits :: "nat \<Rightarrow> string" where
  "digits n = (if n < 10 then [digit_char n] else digits (n div 10) @ [digit_char (n mod 10)])"
  by pat_completeness auto
termination
  by (relation "measure (\<lambda>n. n)") auto

declare digits.simps [simp del]

definition number_toString :: "int \<Rightarrow> string" where
  "number_toString n = (if n < 0 then CHR ''-'' # digits (nat (- n)) else digits (nat n))"

text \<open>The template literal \<open>custom-${Date.now()}\<close>.\<close>

definition custom_id :: "int \<Rightarrow> string" where
  "custom_id now = ''custom-'' @ number_toString now"

text \<open>The button's click handler, with the clock reading as a parameter. The handler
  goes on to save the settings and to render the tab again, neither of which changes
  the settings object.\<close>

definition addCustomEditor :: "int \<Rightarrow> PluginSettings \<Rightarrow> PluginSettings" where
  "addCustomEditor now settings =
    settings\<lparr>customEditors := customEditors settings @
      [\<lparr>c_id = custom_id now, c_name = ''New Editor'', c_appName = '''',
        c_command = '''', c_enabled = False, c_grouped = False\<rparr>]\<rparr>"

text \<open>A sequence of clicks on the button, given by the clock reading at each click.\<close>

fun add_clicks :: "int list \<Rightarrow> PluginSettings \<Rightarrow> PluginSettings" where
  "add_clicks [] settings = settings"
| "add_clicks (now # rest) settings = add_clicks rest (addCustomEditor now settings)"


text \<open>Reading a decimal numeral back, to tell apart the ids of different clock
  readings.\<close>

definition digit_value :: "char \<Rightarrow> nat" where
  "digit_value c = of_char c - 48"

definition digits_value :: "string \<Rightarrow> nat" where
  "digits_value s = foldl (\<lambda>acc c. 10 * acc + digit_value c) 0 s"


section \<open>Sample values\<close>

definition sample_settings :: PluginSettings where
  "sample_settings =
    \<lparr> builtInEditors =
        [''vscode'' \<mapsto> \<lparr>s_enabled = True, s_grouped = False\<rparr>,
         ''cursor'' \<mapsto> \<lparr>s_enabled = False, s_grouped = True\<rparr>,
         ''zed'' \<mapsto> \<lparr>s_enabled = True, s_grouped = True\<rparr>],
      customEditors =
        [\<lparr>c_id = ''custom-1700000000000'', c_name = ''Sublime Text'',
          c_appName = ''Sublime Text'', c_command = ''subl'', c_enabled = False,
          c_grouped = False\<rparr>,
         \<lparr>c_id = ''custom-1700000000001'', c_name = ''Helix'', c_appName = ''Helix'',
          c_command = ''hx'', c_enabled = True, c_grouped = False\<rparr>] \<rparr>"

definition two_editor_settings :: PluginSettings where
  "two_editor_settings =
    \<lparr> builtInEditors =
        [''vscode'' \<mapsto> \<lparr>s_enabled = True, s_grouped = False\<rparr>,
         ''zed'' \<mapsto> \<lparr>s_enabled = True, s_grouped = True\<rparr>],
      customEditors = [] \<rparr>"

definition vscode_config :: EditorConfig where
  "vscode_config =
    \<lparr> e_id = ''vscode'', e_name = ''VS Code'', e_appName = ''Visual Studio Code'',
      e_command = ''code'', e_enabled = True, e_grouped = False, e_isBuiltIn = True \<rparr>"

definition zed_config :: EditorConfig where
  "zed_config =
    \<lparr> e_id = ''zed'', e_name = ''Zed'', e_appName = ''Zed'', e_command = ''zed'',
      e_enabled = True, e_grouped = True, e_isBuiltIn = True \<rparr>"

definition helix_config :: EditorConfig where
  "helix_config =
    \<lparr> e_id = ''custom-1700000000001'', e_name = ''Helix'', e_appName = ''Helix'',
      e_command = ''hx'', e_enabled = True, e_grouped = False, e_isBuiltIn = False \<rparr>"

text \<open>A vault stored under \<open>/vault\<close>, on a given platform, where every launch ends as
  given.\<close>

definition vault_host :: "string \<Rightarrow> exec_outcome \<Rightarrow> Host" where
  "vault_host plat outcome =
    \<lparr> platform = plat, getFullPath = (\<lambda>p. ''/vault/'' @ p), basePath = ''/vault'',
      run = (\<lambda>command. outcome) \<rparr>"

text \<open>A saved settings file that only knows one of the built-in editors.\<close>

definition sample_data :: PersistedData where
  "sample_data =
    \<lparr> pd_builtInEditors = Some [''vscode'' \<mapsto> \<lparr>s_enabled = True, s_grouped = True\<rparr>],
      pd_customEditors = None \<rparr>"

definition quiet_world :: World where
  "quiet_world = \<lparr> exec_calls = [], notices = [], console_errors = [] \<rparr>"


section \<open>Facts about the two loops\<close>

lemma custom_loop_eq:
  "custom_loop customs editors = editors @ map of_custom (filter c_enabled customs)"
  by (induction customs arbitrary: editors) simp_all

lemma builtin_loop_eq:
  "builtin_loop (builtInEditors settings) templates editors =
     Inr (editors @ map (\<lambda>editor. spread_builtin editor (entry_grouped settings editor))
                      (filter (entry_enabled settings) templates))"
proof (induction templates arbitrary: editors)
  case Nil
  show ?case by simp
next
  case (Cons editor rest)
  show ?case
  proof (cases "builtInEditors settings (b_id editor)")
    case None
    then show ?thesis
      by (simp add: Cons.IH entry_enabled_def)
  next
    case (Some entry)
    then show ?thesis
      by (simp add: Cons.IH entry_enabled_def entry_grouped_def)
  qed
qed

lemma getEnabledEditors_eq:
  "getEnabledEditors settings = Inr (listEnabledEditors_spec settings)"
  by (simp add: getEnabledEditors_def listEnabledEditors_spec_def builtin_loop_eq custom_loop_eq)

lemma builtin_all_isBuiltIn: "t \<in> set BUILT_IN_EDITORS \<Longrightarrow> b_isBuiltIn t"
  by (auto simp: BUILT_IN_EDITORS_def)

lemma spec_member:
  "e \<in> set (listEnabledEditors_spec settings) \<longleftrightarrow>
     (\<exists>t \<in> set BUILT_IN_EDITORS. \<exists>entry. builtInEditors settings (b_id t) = Some entry \<and>
         s_enabled entry \<and> e = spread_builtin t (s_grouped entry))
   \<or> (\<exists>c \<in> set (customEditors settings). c_enabled c \<and> e = of_custom c)"
  by (auto simp: listEnabledEditors_spec_def entry_enabled_def entry_grouped_def image_iff
           split: option.splits)

lemma sample_enabled:
  "getEnabledEditors sample_settings = Inr [vscode_config, zed_config, helix_config]"
  by (simp add: getEnabledEditors_def BUILT_IN_EDITORS_def sample_settings_def
        spread_builtin_def of_custom_def vscode_config_def zed_config_def helix_config_def)

lemma cursor_builtin:
  "\<lparr>b_id = ''cursor'', b_name = ''Cursor'', b_appName = ''Cursor'',
     b_command = ''cursor'', b_isBuiltIn = True\<rparr> \<in> set BUILT_IN_EDITORS"
  by (simp add: BUILT_IN_EDITORS_def)

lemma windsurf_builtin:
  "\<lparr>b_id = ''windsurf'', b_name = ''Windsurf'', b_appName = ''Windsurf'',
     b_command = ''windsurf'', b_isBuiltIn = True\<rparr> \<in> set BUILT_IN_EDITORS"
  by (simp add: BUILT_IN_EDITORS_def)


section \<open>Facts about loadSettings\<close>

lemma backfill_lookup:
  "backfill templates entries k =
     (case entries k of
        Some entry \<Rightarrow> Some entry
      | None \<Rightarrow> if k \<in> b_id ` set templates
                then Some \<lparr>s_enabled = False, s_grouped = False\<rparr> else None)"
proof (induction templates arbitrary: entries)
  case Nil
  show ?case by (simp split: option.splits)
next
  case (Cons editor rest)
  show ?case
    by (cases "entries (b_id editor)") (auto simp: Cons.IH split: option.splits)
qed

lemma default_entries:
  "builtInEditors DEFAULT_SETTINGS k =
     (if k \<in> b_id ` set BUILT_IN_EDITORS
      then Some \<lparr>s_enabled = False, s_grouped = False\<rparr> else None)"
  by (simp add: DEFAULT_SETTINGS_def BUILT_IN_EDITORS_def)

lemma loadSettings_lookup_stored:
  "pd_builtInEditors d = Some stored \<Longrightarrow>
   builtInEditors (loadSettings (Some d)) k =
     (case stored k of
        Some entry \<Rightarrow> Some entry
      | None \<Rightarrow> if k \<in> b_id ` set BUILT_IN_EDITORS
                then Some \<lparr>s_enabled = False, s_grouped = False\<rparr> else None)"
  by (simp add: loadSettings_def object_assign_def backfill_lookup)

lemma loadSettings_has_builtin:
  "editor \<in> set BUILT_IN_EDITORS \<Longrightarrow>
   \<exists>entry. builtInEditors (loadSettings data) (b_id editor) = Some entry"
  by (cases "builtInEditors (object_assign DEFAULT_SETTINGS data) (b_id editor)")
     (simp_all add: loadSettings_def Let_def backfill_lookup)


section \<open>Loading settings\<close>

text \<open>
  Claim C3. Whatever was saved, after \<open>loadSettings\<close> every built-in editor id has a
  settings entry. When the saved object has a \<open>builtInEditors\<close> record, the loaded
  record is that one with exactly the missing built-in ids added, each as
  \<open>{enabled: false, grouped: false}\<close>: a stored entry keeps its stored value, a missing
  built-in id gets the default, and no other key appears. When nothing was saved, or the
  saved object has no \<open>builtInEditors\<close> record, the loaded record holds the default
  entry for each built-in id and nothing else.
\<close>

theorem loadSettings_backfills:
  "(\<forall>editor \<in> set BUILT_IN_EDITORS.
      \<exists>entry. builtInEditors (loadSettings data) (b_id editor) = Some entry) \<and>
   (data = Some d \<and> pd_builtInEditors d = Some stored \<longrightarrow>
      builtInEditors (loadSettings data) k =
        (case stored k of
           Some entry \<Rightarrow> Some entry
         | None \<Rightarrow> if k \<in> b_id ` set BUILT_IN_EDITORS
                   then Some \<lparr>s_enabled = False, s_grouped = False\<rparr> else None)) \<and>
   (data = None \<or> data = Some d \<and> pd_builtInEditors d = None \<longrightarrow>
      builtInEditors (loadSettings data) k =
        (if k \<in> b_id ` set BUILT_IN_EDITORS
         then Some \<lparr>s_enabled = False, s_grouped = False\<rparr> else None))"
proof -
  have "builtInEditors (loadSettings data) k =
        (if k \<in> b_id ` set BUILT_IN_EDITORS
         then Some \<lparr>s_enabled = False, s_grouped = False\<rparr> else None)"
    if "data = None \<or> data = Some d \<and> pd_builtInEditors d = None"
    using that
    by (auto simp: loadSettings_def object_assign_def Let_def backfill_lookup default_entries
          simp del: image_set)
  then show ?thesis
    using loadSettings_has_builtin loadSettings_lookup_stored by blast
qed

theorem loadSettings_backfills_witness:
  "pd_builtInEditors sample_data = Some [''vscode'' \<mapsto> \<lparr>s_enabled = True, s_grouped = True\<rparr>] \<and>
   builtInEditors (loadSettings (Some sample_data)) ''vscode''
     = Some \<lparr>s_enabled = True, s_grouped = True\<rparr> \<and>
   builtInEditors (loadSettings (Some sample_data)) ''zed''
     = Some \<lparr>s_enabled = False, s_grouped = False\<rparr> \<and>
   builtInEditors (loadSettings (Some sample_data)) ''emacs'' = None \<and>
   (\<exists>entry. builtInEditors (loadSettings (Some sample_data)) ''antygravity'' = Some entry)"
proof -
  let ?stored = "[''vscode'' \<mapsto> \<lparr>s_enabled = True, s_grouped = True\<rparr>]"
  have st: "pd_builtInEditors sample_data = Some ?stored"
    by (simp add: sample_data_def)
  have look: "builtInEditors (loadSettings (Some sample_data)) k =
        (case ?stored k of
           Some entry \<Rightarrow> Some entry
         | None \<Rightarrow> if k \<in> b_id ` set BUILT_IN_EDITORS
                   then Some \<lparr>s_enabled = False, s_grouped = False\<rparr> else None)" for k
    using loadSettings_backfills [of "Some sample_data" sample_data ?stored k] st by simp
  have "\<lparr>b_id = ''antygravity'', b_name = ''Antygravity'', b_appName = ''Antygravity'',
        b_command = ''antygravity'', b_isBuiltIn = True\<rparr> \<in> set BUILT_IN_EDITORS"
    by (simp add: BUILT_IN_EDITORS_def)
  with loadSettings_backfills [of "Some sample_data" sample_data ?stored "[]"]
  have "\<exists>entry. builtInEditors (loadSettings (Some sample_data)) ''antygravity'' = Some entry"
    by fastforce
  then show ?thesis
    using st by (simp add: look BUILT_IN_EDITORS_def)
qed


section \<open>The enabled editors\<close>

text \<open>
  Claim C6. \<open>getEnabledEditors\<close> returns, and every descriptor it returns is marked
  enabled and comes from an enabled source: a built-in descriptor from a built-in editor
  whose settings entry has enabled = true, any other from a stored custom editor with
  enabled = true. So a built-in editor whose entry has enabled = false contributes no
  built-in descriptor, and an id carried only by disabled custom editors names no custom
  descriptor of the result.
\<close>

theorem getEnabledEditors_only_enabled:
  "\<exists>editors. getEnabledEditors settings = Inr editors \<and>
     (\<forall>e \<in> set editors.
        e_enabled e \<and>
        (if e_isBuiltIn e
         then \<exists>t \<in> set BUILT_IN_EDITORS. \<exists>entry.
                builtInEditors settings (b_id t) = Some entry \<and> s_enabled entry \<and>
                e = spread_builtin t (s_grouped entry)
         else \<exists>c \<in> set (customEditors settings). c_enabled c \<and> e = of_custom c)) \<and>
     (\<forall>t \<in> set BUILT_IN_EDITORS. \<forall>entry.
        builtInEditors settings (b_id t) = Some entry \<and> \<not> s_enabled entry \<longrightarrow>
        (\<forall>e \<in> set editors. e_isBuiltIn e \<longrightarrow> e_id e \<noteq> b_id t)) \<and>
     (\<forall>ident. (\<forall>c \<in> set (customEditors settings). c_id c = ident \<longrightarrow> \<not> c_enabled c) \<longrightarrow>
        (\<forall>e \<in> set editors. \<not> e_isBuiltIn e \<longrightarrow> e_id e \<noteq> ident))"
proof -
  let ?r = "listEnabledEditors_spec settings"
  have pos: "e_enabled e \<and>
        (if e_isBuiltIn e
         then \<exists>t \<in> set BUILT_IN_EDITORS. \<exists>entry.
                builtInEditors settings (b_id t) = Some entry \<and> s_enabled entry \<and>
                e = spread_builtin t (s_grouped entry)
         else \<exists>c \<in> set (customEditors settings). c_enabled c \<and> e = of_custom c)"
    if "e \<in> set ?r" for e
    using that unfolding spec_member
    by (auto simp: spread_builtin_def of_custom_def builtin_all_isBuiltIn)
  have negb: "e_id e \<noteq> b_id t"
    if "t \<in> set BUILT_IN_EDITORS" "builtInEditors settings (b_id t) = Some entry"
       "\<not> s_enabled entry" "e \<in> set ?r" "e_isBuiltIn e" for t entry e
    using that unfolding spec_member
    by (auto simp: spread_builtin_def of_custom_def)
  have negc: "e_id e \<noteq> ident"
    if "\<forall>c \<in> set (customEditors settings). c_id c = ident \<longrightarrow> \<not> c_enabled c"
       "e \<in> set ?r" "\<not> e_isBuiltIn e" for ident e
    using that unfolding spec_member
    by (auto simp: spread_builtin_def of_custom_def builtin_all_isBuiltIn)
  show ?thesis
  proof (intro exI[of _ ?r] conjI)
    show "getEnabledEditors settings = Inr ?r" by (rule getEnabledEditors_eq)
  qed (use pos negb negc in blast)+
qed

theorem getEnabledEditors_only_enabled_witness:
  "getEnabledEditors sample_settings = Inr [vscode_config, zed_config, helix_config] \<and>
   builtInEditors sample_settings ''cursor'' = Some \<lparr>s_enabled = False, s_grouped = True\<rparr> \<and>
   map c_enabled (customEditors sample_settings) = [False, True] \<and>
   list_all e_enabled [vscode_config, zed_config, helix_config] \<and>
   ''cursor'' \<notin> e_id ` set (filter e_isBuiltIn [vscode_config, zed_config, helix_config]) \<and>
   ''custom-1700000000000'' \<notin>
      e_id ` set (filter (\<lambda>e. \<not> e_isBuiltIn e) [vscode_config, zed_config, helix_config])"
proof -
  let ?r = "[vscode_config, zed_config, helix_config]"
  have cur: "builtInEditors sample_settings ''cursor'' = Some \<lparr>s_enabled = False, s_grouped = True\<rparr>"
    by (simp add: sample_settings_def)
  have cus: "\<forall>c \<in> set (customEditors sample_settings).
               c_id c = ''custom-1700000000000'' \<longrightarrow> \<not> c_enabled c"
    by (simp add: sample_settings_def)
  from getEnabledEditors_only_enabled [of sample_settings] sample_enabled
  have pos: "\<forall>e \<in> set ?r. e_enabled e"
    and negb: "\<forall>t \<in> set BUILT_IN_EDITORS. \<forall>entry.
        builtInEditors sample_settings (b_id t) = Some entry \<and> \<not> s_enabled entry \<longrightarrow>
        (\<forall>e \<in> set ?r. e_isBuiltIn e \<longrightarrow> e_id e \<noteq> b_id t)"
    and negc: "\<forall>ident. (\<forall>c \<in> set (customEditors sample_settings). c_id c = ident \<longrightarrow> \<not> c_enabled c) \<longrightarrow>
        (\<forall>e \<in> set ?r. \<not> e_isBuiltIn e \<longrightarrow> e_id e \<noteq> ident)"
    by auto
  from negb cursor_builtin cur
  have a: "\<forall>e \<in> set ?r. e_isBuiltIn e \<longrightarrow> e_id e \<noteq> ''cursor''"
    by fastforce
  from negc cus
  have b: "\<forall>e \<in> set ?r. \<not> e_isBuiltIn e \<longrightarrow> e_id e \<noteq> ''custom-1700000000000''"
    by blast
  have c: "map c_enabled (customEditors sample_settings) = [False, True]"
    by (simp add: sample_settings_def)
  show ?thesis
    using sample_enabled cur c pos a b unfolding list_all_iff by auto
qed


text \<open>
  Claim C7. The sequence \<open>getEnabledEditors\<close> returns is the enabled built-in editors
  in the order of \<open>BUILT_IN_EDITORS\<close> (vscode, cursor, zed, windsurf, antygravity), each
  carrying its own id, name, application name and command and the grouped flag of its
  settings entry, followed by the enabled custom editors in the order of the stored list,
  each carrying its stored id, name, application name, command and grouped flag. In
  particular the ids of the result are the ids of the enabled built-ins in declaration
  order followed by the ids of the enabled custom editors in stored order.
\<close>

theorem getEnabledEditors_order:
  "getEnabledEditors settings =
     Inr (map (\<lambda>editor. spread_builtin editor (entry_grouped settings editor))
            (filter (entry_enabled settings) BUILT_IN_EDITORS)
          @ map of_custom (filter c_enabled (customEditors settings))) \<and>
   getEnabledEditors settings =
     Inr (map (\<lambda>editor.
                 \<lparr> e_id = b_id editor, e_name = b_name editor, e_appName = b_appName editor,
                   e_command = b_command editor, e_enabled = True,
                   e_grouped = (case builtInEditors settings (b_id editor) of
                                  None \<Rightarrow> False | Some entry \<Rightarrow> s_grouped entry),
                   e_isBuiltIn = True \<rparr>)
            (filter (\<lambda>editor. case builtInEditors settings (b_id editor) of
                                 None \<Rightarrow> False | Some entry \<Rightarrow> s_enabled entry)
               BUILT_IN_EDITORS)
          @ map (\<lambda>custom.
                 \<lparr> e_id = c_id custom, e_name = c_name custom, e_appName = c_appName custom,
                   e_command = c_command custom, e_enabled = True,
                   e_grouped = c_grouped custom, e_isBuiltIn = False \<rparr>)
              (filter c_enabled (customEditors settings))) \<and>
   (\<exists>editors. getEnabledEditors settings = Inr editors \<and>
      map e_id editors =
        map b_id (filter (\<lambda>editor. case builtInEditors settings (b_id editor) of
                                      None \<Rightarrow> False | Some entry \<Rightarrow> s_enabled entry)
                    BUILT_IN_EDITORS)
        @ map c_id (filter c_enabled (customEditors settings)) \<and>
      map e_isBuiltIn editors =
        replicate (length (filter (\<lambda>editor. case builtInEditors settings (b_id editor) of
                                      None \<Rightarrow> False | Some entry \<Rightarrow> s_enabled entry)
                    BUILT_IN_EDITORS)) True
        @ replicate (length (filter c_enabled (customEditors settings))) False) \<and>
   map b_id BUILT_IN_EDITORS = [''vscode'', ''cursor'', ''zed'', ''windsurf'', ''antygravity'']"
proof -
  let ?en = "\<lambda>editor. case builtInEditors settings (b_id editor) of
                                 None \<Rightarrow> False | Some entry \<Rightarrow> s_enabled entry"
  have en: "entry_enabled settings = ?en"
    by (intro ext) (simp add: entry_enabled_def)
  have 1: "getEnabledEditors settings =
     Inr (map (\<lambda>editor. spread_builtin editor (entry_grouped settings editor))
            (filter (entry_enabled settings) BUILT_IN_EDITORS)
          @ map of_custom (filter c_enabled (customEditors settings)))"
    using getEnabledEditors_eq [of settings] by (simp add: listEnabledEditors_spec_def)
  have b: "map (\<lambda>editor. spread_builtin editor (entry_grouped settings editor))
            (filter ?en BUILT_IN_EDITORS) =
           map (\<lambda>editor.
                 \<lparr> e_id = b_id editor, e_name = b_name editor, e_appName = b_appName editor,
                   e_command = b_command editor, e_enabled = True,
                   e_grouped = (case builtInEditors settings (b_id editor) of
                                  None \<Rightarrow> False | Some entry \<Rightarrow> s_grouped entry),
                   e_isBuiltIn = True \<rparr>)
            (filter ?en BUILT_IN_EDITORS)"
    by (rule map_cong) (simp_all add: spread_builtin_def entry_grouped_def builtin_all_isBuiltIn)
  have c: "map of_custom (filter c_enabled (customEditors settings)) =
           map (\<lambda>custom.
                 \<lparr> e_id = c_id custom, e_name = c_name custom, e_appName = c_appName custom,
                   e_command = c_command custom, e_enabled = True,
                   e_grouped = c_grouped custom, e_isBuiltIn = False \<rparr>)
              (filter c_enabled (customEditors settings))"
    by (rule map_cong) (simp_all add: of_custom_def)
  have 2: "getEnabledEditors settings =
     Inr (map (\<lambda>editor.
                 \<lparr> e_id = b_id editor, e_name = b_name editor, e_appName = b_appName editor,
                   e_command = b_command editor, e_enabled = True,
                   e_grouped = (case builtInEditors settings (b_id editor) of
                                  None \<Rightarrow> False | Some entry \<Rightarrow> s_grouped entry),
                   e_isBuiltIn = True \<rparr>)
            (filter ?en BUILT_IN_EDITORS)
          @ map (\<lambda>custom.
                 \<lparr> e_id = c_id custom, e_name = c_name custom, e_appName = c_appName custom,
                   e_command = c_command custom, e_enabled = True,
                   e_grouped = c_grouped custom, e_isBuiltIn = False \<rparr>)
              (filter c_enabled (customEditors settings)))"
    using 1 unfolding en b c .
  have 3: "\<exists>editors. getEnabledEditors settings = Inr editors \<and>
      map e_id editors =
        map b_id (filter ?en BUILT_IN_EDITORS)
        @ map c_id (filter c_enabled (customEditors settings)) \<and>
      map e_isBuiltIn editors =
        replicate (length (filter ?en BUILT_IN_EDITORS)) True
        @ replicate (length (filter c_enabled (customEditors settings))) False"
    unfolding 2 by (simp add: comp_def map_replicate_const)
  have 4: "map b_id BUILT_IN_EDITORS = [''vscode'', ''cursor'', ''zed'', ''windsurf'', ''antygravity'']"
    by (simp add: BUILT_IN_EDITORS_def)
  from 1 2 3 4 show ?thesis by (intro conjI)
qed

theorem getEnabledEditors_order_witness:
  "getEnabledEditors
     \<lparr> builtInEditors =
        [''zed'' \<mapsto> \<lparr>s_enabled = True, s_grouped = True\<rparr>,
         ''cursor'' \<mapsto> \<lparr>s_enabled = False, s_grouped = True\<rparr>,
         ''vscode'' \<mapsto> \<lparr>s_enabled = True, s_grouped = False\<rparr>],
       customEditors =
        [\<lparr>c_id = ''custom-2'', c_name = ''Helix'', c_appName = ''Helix.app'',
          c_command = ''hx'', c_enabled = True, c_grouped = False\<rparr>,
         \<lparr>c_id = ''custom-3'', c_name = ''Sublime Text'', c_appName = ''Sublime Text'',
          c_command = ''subl'', c_enabled = False, c_grouped = False\<rparr>,
         \<lparr>c_id = ''custom-1'', c_name = ''Kate'', c_appName = ''Kate.app'',
          c_command = ''kate'', c_enabled = True, c_grouped = True\<rparr>] \<rparr>
   = Inr [\<lparr> e_id = ''vscode'', e_name = ''VS Code'', e_appName = ''Visual Studio Code'',
            e_command = ''code'', e_enabled = True, e_grouped = False, e_isBuiltIn = True \<rparr>,
          \<lparr> e_id = ''zed'', e_name = ''Zed'', e_appName = ''Zed'', e_command = ''zed'',
            e_enabled = True, e_grouped = True, e_isBuiltIn = True \<rparr>,
          \<lparr> e_id = ''custom-2'', e_name = ''Helix'', e_appName = ''Helix.app'',
            e_command = ''hx'', e_enabled = True, e_grouped = False, e_isBuiltIn = False \<rparr>,
          \<lparr> e_id = ''custom-1'', e_name = ''Kate'', e_appName = ''Kate.app'',
            e_command = ''kate'', e_enabled = True, e_grouped = True, e_isBuiltIn = False \<rparr>]"
proof -
  let ?s = "\<lparr> builtInEditors =
        [''zed'' \<mapsto> \<lparr>s_enabled = True, s_grouped = True\<rparr>,
         ''cursor'' \<mapsto> \<lparr>s_enabled = False, s_grouped = True\<rparr>,
         ''vscode'' \<mapsto> \<lparr>s_enabled = True, s_grouped = False\<rparr>],
       customEditors =
        [\<lparr>c_id = ''custom-2'', c_name = ''Helix'', c_appName = ''Helix.app'',
          c_command = ''hx'', c_enabled = True, c_grouped = False\<rparr>,
         \<lparr>c_id = ''custom-3'', c_name = ''Sublime Text'', c_appName = ''Sublime Text'',
          c_command = ''subl'', c_enabled = False, c_grouped = False\<rparr>,
         \<lparr>c_id = ''custom-1'', c_name = ''Kate'', c_appName = ''Kate.app'',
          c_command = ''kate'', c_enabled = True, c_grouped = True\<rparr>] \<rparr>"
  from getEnabledEditors_order [of ?s]
  have "getEnabledEditors ?s =
     Inr (map (\<lambda>editor.
                 \<lparr> e_id = b_id editor, e_name = b_name editor, e_appName = b_appName editor,
                   e_command = b_command editor, e_enabled = True,
                   e_grouped = (case builtInEditors ?s (b_id editor) of
                                  None \<Rightarrow> False | Some entry \<Rightarrow> s_grouped entry),
                   e_isBuiltIn = True \<rparr>)
            (filter (\<lambda>editor. case builtInEditors ?s (b_id editor) of
                                 None \<Rightarrow> False | Some entry \<Rightarrow> s_enabled entry)
               BUILT_IN_EDITORS)
          @ map (\<lambda>custom.
                 \<lparr> e_id = c_id custom, e_name = c_name custom, e_appName = c_appName custom,
                   e_command = c_command custom, e_enabled = True,
                   e_grouped = c_grouped custom, e_isBuiltIn = False \<rparr>)
              (filter c_enabled (customEditors ?s)))"
    by (elim conjE)
  then show ?thesis
    by (simp add: BUILT_IN_EDITORS_def)
qed


text \<open>
  Claim C9. When a built-in editor has no settings entry, \<open>getEnabledEditors\<close> still
  returns a list (the guarded read of \<open>grouped\<close> is never reached for it), no built-in
  descriptor of the result carries that editor's id, and the result is the one obtained
  with an entry \<open>{enabled: false, grouped: g}\<close> stored for it, whatever \<open>g\<close> is.
\<close>

theorem getEnabledEditors_missing_entry:
  assumes "t \<in> set BUILT_IN_EDITORS" and "builtInEditors settings (b_id t) = None"
  shows "\<exists>editors. getEnabledEditors settings = Inr editors \<and>
           (\<forall>e \<in> set editors. e_isBuiltIn e \<longrightarrow> e_id e \<noteq> b_id t) \<and>
           getEnabledEditors
             (settings\<lparr>builtInEditors :=
                (builtInEditors settings)(b_id t \<mapsto> \<lparr>s_enabled = False, s_grouped = g\<rparr>)\<rparr>)
             = Inr editors"
proof -
  let ?s' = "settings\<lparr>builtInEditors :=
                (builtInEditors settings)(b_id t \<mapsto> \<lparr>s_enabled = False, s_grouped = g\<rparr>)\<rparr>"
  have en: "entry_enabled ?s' u = entry_enabled settings u" for u
    using assms(2) by (simp add: entry_enabled_def)
  have gr: "entry_enabled settings u \<Longrightarrow> entry_grouped ?s' u = entry_grouped settings u" for u
    using assms(2) by (auto simp: entry_enabled_def entry_grouped_def)
  have en': "entry_enabled ?s' = entry_enabled settings"
    using en by (intro ext)
  have same: "listEnabledEditors_spec ?s' = listEnabledEditors_spec settings"
    unfolding listEnabledEditors_spec_def en' using gr
    by (simp cong: map_cong)
  have absent: "e_id e \<noteq> b_id t" if "e \<in> set (listEnabledEditors_spec settings)" "e_isBuiltIn e" for e
    using that assms(2) unfolding spec_member by (auto simp: spread_builtin_def of_custom_def)
  show ?thesis
    using same absent by (simp add: getEnabledEditors_eq del: fun_upd_apply)
qed

theorem getEnabledEditors_missing_entry_witness:
  "builtInEditors sample_settings ''windsurf'' = None \<and>
   getEnabledEditors sample_settings = Inr [vscode_config, zed_config, helix_config] \<and>
   ''windsurf'' \<notin> e_id ` set (filter e_isBuiltIn [vscode_config, zed_config, helix_config]) \<and>
   getEnabledEditors
     (sample_settings\<lparr>builtInEditors :=
        (builtInEditors sample_settings)(''windsurf'' \<mapsto> \<lparr>s_enabled = False, s_grouped = True\<rparr>)\<rparr>)
     = Inr [vscode_config, zed_config, helix_config]"
proof -
  let ?t = "\<lparr>b_id = ''windsurf'', b_name = ''Windsurf'', b_appName = ''Windsurf'',
     b_command = ''windsurf'', b_isBuiltIn = True\<rparr>"
  have none: "builtInEditors sample_settings (b_id ?t) = None"
    by (simp add: sample_settings_def)
  from getEnabledEditors_missing_entry [OF windsurf_builtin none, of True] sample_enabled
  have "(\<forall>e \<in> set [vscode_config, zed_config, helix_config]. e_isBuiltIn e \<longrightarrow> e_id e \<noteq> ''windsurf'') \<and>
    getEnabledEditors
     (sample_settings\<lparr>builtInEditors :=
        (builtInEditors sample_settings)(''windsurf'' \<mapsto> \<lparr>s_enabled = False, s_grouped = True\<rparr>)\<rparr>)
     = Inr [vscode_config, zed_config, helix_config]"
    by auto
  then show ?thesis
    using none sample_enabled by auto
qed


section \<open>Facts about openInEditor\<close>

lemma openInEditor_eq:
  "openInEditor host editor file w =
    (let command = build_command (platform host) editor (resolve_filePath host file);
         w1 = w\<lparr>exec_calls := exec_calls w @ [command]\<rparr>
     in if run host command = Exit 0
        then (Inr (), Notice (success_notice editor) w1)
        else (Inr (),
              Notice (failure_notice editor)
                (console_error (''Error opening in '' @ e_name editor @ '':'')
                   (ExecError (run host command)) w1)))"
  by (simp add: openInEditor_def openInEditor_try_def execAsync_def Let_def
           split: exec_outcome.splits)

lemma notices_differ: "success_notice editor \<noteq> failure_notice editor"
  by (simp add: success_notice_def failure_notice_def)

lemma openInEditor_calls:
  "exec_calls (snd (openInEditor host editor file w)) =
     exec_calls w @ [build_command (platform host) editor (resolve_filePath host file)]"
  by (simp add: openInEditor_eq Let_def Notice_def console_error_def)

lemma resolve_Some: "resolve_filePath host (Some f) = getFullPath host (path f)"
  by (cases f) (simp_all add: resolve_filePath_def)


section \<open>Launching an editor\<close>

text \<open>
  Claim C1. For every host, editor, target and launch outcome, \<open>openInEditor\<close> ends
  without an exception reaching its caller and shows exactly one new notice. When the
  child exits with code 0 the notice reads \<open>Opening in\<close> followed by the editor's name;
  otherwise (non-zero exit code, command not found, spawn error) it reads
  \<open>Failed to open in\<close>, the editor's name, \<open>. Make sure\<close>, the editor's name again and
  \<open>is installed.\<close> The two texts differ, so a failed launch shows no success notice and
  a successful one no failure notice.
\<close>

theorem openInEditor_notifies_once:
  "fst (openInEditor host editor file w) = Inr () \<and>
   take (length (notices w)) (notices (snd (openInEditor host editor file w))) = notices w \<and>
   drop (length (notices w)) (notices (snd (openInEditor host editor file w))) =
     [if run host (build_command (platform host) editor (resolve_filePath host file)) = Exit 0
      then success_notice editor else failure_notice editor] \<and>
   count_list (drop (length (notices w)) (notices (snd (openInEditor host editor file w))))
       (success_notice editor) =
     (if run host (build_command (platform host) editor (resolve_filePath host file)) = Exit 0
      then 1 else 0) \<and>
   count_list (drop (length (notices w)) (notices (snd (openInEditor host editor file w))))
       (failure_notice editor) =
     (if run host (build_command (platform host) editor (resolve_filePath host file)) = Exit 0
      then 0 else 1) \<and>
   notices (snd (openInEditor host editor file w)) =
     notices w @
       [if run host (build_command (platform host) editor (resolve_filePath host file)) = Exit 0
        then ''Opening in '' @ e_name editor
        else ''Failed to open in '' @ e_name editor @ ''. Make sure '' @ e_name editor
               @ '' is installed.''] \<and>
   success_notice editor = ''Opening in '' @ e_name editor \<and>
   failure_notice editor =
     ''Failed to open in '' @ e_name editor @ ''. Make sure '' @ e_name editor @ '' is installed.''"
proof -
  have s: "success_notice editor = ''Opening in '' @ e_name editor"
    by (simp add: success_notice_def)
  have f: "failure_notice editor =
     ''Failed to open in '' @ e_name editor @ ''. Make sure '' @ e_name editor @ '' is installed.''"
    by (simp add: failure_notice_def)
  have n: "notices (snd (openInEditor host editor file w)) =
     notices w @
       [if run host (build_command (platform host) editor (resolve_filePath host file)) = Exit 0
        then success_notice editor else failure_notice editor]"
    by (simp add: openInEditor_eq Let_def Notice_def console_error_def)
  have c: "fst (openInEditor host editor file w) = Inr ()"
    by (simp add: openInEditor_eq Let_def)
  have d: "success_notice editor \<noteq> failure_notice editor"
    by (rule notices_differ)
  show ?thesis
    unfolding n using c d s f by simp
qed

theorem openInEditor_notifies_once_witness:
  \<open>openInEditor (vault_host ''linux'' (Exit 1))
      \<lparr> e_id = ''vscode'', e_name = ''VS Code'', e_appName = ''Visual Studio Code'',
        e_command = ''code'', e_enabled = True, e_grouped = False, e_isBuiltIn = True \<rparr>
      (Some (TFile ''note.md''))
      \<lparr> exec_calls = [], notices = [''earlier notice''], console_errors = [] \<rparr>
   = (Inr (),
      \<lparr> exec_calls = [''code "/vault/note.md"''],
        notices = [''earlier notice'',
                   ''Failed to open in VS Code. Make sure VS Code is installed.''],
        console_errors = [(''Error opening in VS Code:'', ExecError (Exit 1))] \<rparr>) \<and>
   notices (snd (openInEditor (vault_host ''linux'' CommandNotFound)
      \<lparr> e_id = ''vscode'', e_name = ''VS Code'', e_appName = ''Visual Studio Code'',
        e_command = ''code'', e_enabled = True, e_grouped = False, e_isBuiltIn = True \<rparr>
      None \<lparr> exec_calls = [], notices = [], console_errors = [] \<rparr>))
   = [''Failed to open in VS Code. Make sure VS Code is installed.''] \<and>
   notices (snd (openInEditor (vault_host ''linux'' SpawnError)
      \<lparr> e_id = ''vscode'', e_name = ''VS Code'', e_appName = ''Visual Studio Code'',
        e_command = ''code'', e_enabled = True, e_grouped = False, e_isBuiltIn = True \<rparr>
      None \<lparr> exec_calls = [], notices = [], console_errors = [] \<rparr>))
   = [''Failed to open in VS Code. Make sure VS Code is installed.''] \<and>
   notices (snd (openInEditor (vault_host ''linux'' (Exit 0))
      \<lparr> e_id = ''vscode'', e_name = ''VS Code'', e_appName = ''Visual Studio Code'',
        e_command = ''code'', e_enabled = True, e_grouped = False, e_isBuiltIn = True \<rparr>
      (Some (TFolder ''docs'')) \<lparr> exec_calls = [], notices = [], console_errors = [] \<rparr>))
   = [''Opening in VS Code'']\<close>
proof -
  let ?e = "\<lparr> e_id = ''vscode'', e_name = ''VS Code'', e_appName = ''Visual Studio Code'',
        e_command = ''code'', e_enabled = True, e_grouped = False, e_isBuiltIn = True \<rparr>"
  let ?w0 = "\<lparr> exec_calls = [], notices = [], console_errors = [] \<rparr>"
  have 1: "notices (snd (openInEditor (vault_host ''linux'' CommandNotFound) ?e None ?w0))
             = [''Failed to open in VS Code. Make sure VS Code is installed.'']"
    using openInEditor_notifies_once [of "vault_host ''linux'' CommandNotFound" ?e None ?w0]
    by (simp add: vault_host_def)
  have 2: "notices (snd (openInEditor (vault_host ''linux'' SpawnError) ?e None ?w0))
             = [''Failed to open in VS Code. Make sure VS Code is installed.'']"
    using openInEditor_notifies_once [of "vault_host ''linux'' SpawnError" ?e None ?w0]
    by (simp add: vault_host_def)
  have 3: "notices (snd (openInEditor (vault_host ''linux'' (Exit 0)) ?e (Some (TFolder ''docs'')) ?w0))
             = [''Opening in VS Code'']"
    using openInEditor_notifies_once [of "vault_host ''linux'' (Exit 0)" ?e "Some (TFolder ''docs'')" ?w0]
    by (simp add: vault_host_def)
  have 4: \<open>openInEditor (vault_host ''linux'' (Exit 1)) ?e (Some (TFile ''note.md''))
      \<lparr> exec_calls = [], notices = [''earlier notice''], console_errors = [] \<rparr>
   = (Inr (),
      \<lparr> exec_calls = [''code "/vault/note.md"''],
        notices = [''earlier notice'',
                   ''Failed to open in VS Code. Make sure VS Code is installed.''],
        console_errors = [(''Error opening in VS Code:'', ExecError (Exit 1))] \<rparr>)\<close>
    by (simp add: openInEditor_def openInEditor_try_def execAsync_def Let_def Notice_def
          console_error_def build_command_def resolve_filePath_def vault_host_def
          failure_notice_def)
  from 1 2 3 4 show ?thesis by (intro conjI)
qed

text \<open>
  Claim C2, as the code has it. For an editor whose command token is \<open>code\<close> and a target
  resolved to \<open>/vault/note.md\<close>, off macOS, \<open>openInEditor\<close> hands exactly one command line
  to \<open>exec\<close>: on Windows (\<open>win32\<close>) the command token and the path are both quoted, on
  every other platform the command token is bare and the path is quoted.
\<close>

theorem openInEditor_direct_command:
  assumes "platform host \<noteq> ''darwin''" and "e_command editor = ''code''"
    and "resolve_filePath host file = ''/vault/note.md''"
  shows \<open>exec_calls (snd (openInEditor host editor file w)) =
           exec_calls w @
             [if platform host = ''win32'' then ''"code" "/vault/note.md"''
              else ''code "/vault/note.md"'']\<close>
  using assms by (simp add: openInEditor_calls build_command_def)

theorem openInEditor_direct_command_witness:
  \<open>platform (vault_host ''linux'' (Exit 0)) \<noteq> ''darwin'' \<and>
   platform (vault_host ''linux'' (Exit 0)) \<noteq> ''win32'' \<and>
   e_command vscode_config = ''code'' \<and>
   resolve_filePath (vault_host ''linux'' (Exit 0)) (Some (TFile ''note.md'')) = ''/vault/note.md'' \<and>
   exec_calls (snd (openInEditor (vault_host ''linux'' (Exit 0)) vscode_config
                      (Some (TFile ''note.md'')) quiet_world)) =
     [''code "/vault/note.md"'']\<close>
proof -
  have p: "platform (vault_host ''linux'' (Exit 0)) \<noteq> ''darwin''"
    by (simp add: vault_host_def)
  have q: "platform (vault_host ''linux'' (Exit 0)) \<noteq> ''win32''"
    by (simp add: vault_host_def)
  have c: "e_command vscode_config = ''code''"
    by (simp add: vscode_config_def)
  have r: "resolve_filePath (vault_host ''linux'' (Exit 0)) (Some (TFile ''note.md''))
             = ''/vault/note.md''"
    by (simp add: resolve_filePath_def vault_host_def)
  show ?thesis
    using openInEditor_direct_command [OF p c r, of quiet_world] p q c r
    by (simp add: quiet_world_def)
qed

text \<open>
  Claim C2, as stated, fails on Windows: for the command token \<open>code\<close> and the resolved
  path \<open>/vault/note.md\<close> the command line handed to \<open>exec\<close> has the command token quoted
  as well, so it is not the string the claim gives.
\<close>

theorem openInEditor_windows_command_counterexample:
  \<open>e_command vscode_config = ''code'' \<and>
   resolve_filePath (vault_host ''win32'' (Exit 0)) (Some (TFile ''note.md'')) = ''/vault/note.md'' \<and>
   exec_calls (snd (openInEditor (vault_host ''win32'' (Exit 0)) vscode_config
                      (Some (TFile ''note.md'')) quiet_world)) =
     [''"code" "/vault/note.md"''] \<and>
   exec_calls (snd (openInEditor (vault_host ''win32'' (Exit 0)) vscode_config
                      (Some (TFile ''note.md'')) quiet_world)) \<noteq>
     [''code "/vault/note.md"'']\<close>
  by (simp add: openInEditor_calls build_command_def vault_host_def vscode_config_def
        resolve_filePath_def quiet_world_def)

text \<open>
  Claim C5. On macOS (\<open>darwin\<close>), for an editor whose application name is \<open>Zed\<close> and a
  target resolved to \<open>/vault/note.md\<close>, \<open>openInEditor\<close> hands exactly one command line to
  \<open>exec\<close>, namely \<open>open -a\<close> followed by the application name and the path, each in
  double quotes.
\<close>

theorem openInEditor_macos_command:
  assumes "platform host = ''darwin''" and "e_appName editor = ''Zed''"
    and "resolve_filePath host file = ''/vault/note.md''"
  shows \<open>exec_calls (snd (openInEditor host editor file w)) =
           exec_calls w @ [''open -a "Zed" "/vault/note.md"'']\<close>
  using assms by (simp add: openInEditor_calls build_command_def)

theorem openInEditor_macos_command_witness:
  \<open>platform (vault_host ''darwin'' (Exit 0)) = ''darwin'' \<and> e_appName zed_config = ''Zed'' \<and>
   resolve_filePath (vault_host ''darwin'' (Exit 0)) (Some (TFile ''note.md'')) = ''/vault/note.md'' \<and>
   exec_calls (snd (openInEditor (vault_host ''darwin'' (Exit 0)) zed_config
                      (Some (TFile ''note.md'')) quiet_world)) =
     [''open -a "Zed" "/vault/note.md"'']\<close>
proof -
  have p: "platform (vault_host ''darwin'' (Exit 0)) = ''darwin''"
    by (simp add: vault_host_def)
  have a: "e_appName zed_config = ''Zed''"
    by (simp add: zed_config_def)
  have r: "resolve_filePath (vault_host ''darwin'' (Exit 0)) (Some (TFile ''note.md''))
             = ''/vault/note.md''"
    by (simp add: resolve_filePath_def vault_host_def)
  show ?thesis
    using openInEditor_macos_command [OF p a r, of quiet_world] p a r
    by (simp add: quiet_world_def)
qed


section \<open>Facts about the menu\<close>

lemma add_items_eq: "add_items cb editors menu = menu @ map cb editors"
  by (induction editors arbitrary: menu) simp_all

lemma parent_item_eq:
  "parent_item file groupedEditors =
     MenuItem ''Open in External Editor'' ''code'' None (Some (map (sub_item file) groupedEditors))"
  by (simp add: parent_item_def add_items_eq)

lemma addEditorMenuItems_eq:
  "addEditorMenuItems settings menu file =
     Inr (menu @ map (ungrouped_item file) (filter (\<lambda>e. \<not> e_grouped e) (listEnabledEditors_spec settings))
          @ (if filter e_grouped (listEnabledEditors_spec settings) = [] then []
             else [parent_item file (filter e_grouped (listEnabledEditors_spec settings))]))"
  by (cases "listEnabledEditors_spec settings = []")
     (simp_all add: addEditorMenuItems_def getEnabledEditors_eq add_items_eq Let_def)

lemma filter_grouped_empty:
  "filter e_grouped editors = [] \<longleftrightarrow> \<not> (\<exists>e \<in> set editors. e_grouped e)"
  by (simp add: filter_empty_conv)

lemma two_editor_enabled:
  "getEnabledEditors two_editor_settings = Inr [vscode_config, zed_config]"
  by (simp add: getEnabledEditors_def BUILT_IN_EDITORS_def two_editor_settings_def
        spread_builtin_def of_custom_def vscode_config_def zed_config_def)

lemma handlers_ungrouped: "handlers (ungrouped_item file editor) = [(editor, file)]"
  by (simp add: ungrouped_item_def)

lemma handlers_sub: "handlers (sub_item file editor) = [(editor, file)]"
  by (simp add: sub_item_def)

lemma handlers_parent:
  "handlers (parent_item file editors) = map (\<lambda>editor. (editor, file)) editors"
  by (induction editors) (simp_all add: parent_item_eq handlers_sub)

lemma added_handlers_target:
  assumes "addEditorMenuItems settings menu file = Inr (menu @ added)"
    and "item \<in> set added" and "h \<in> set (handlers item)"
  shows "snd h = file"
proof -
  from assms(1) have "added =
      map (ungrouped_item file) (filter (\<lambda>e. \<not> e_grouped e) (listEnabledEditors_spec settings))
          @ (if filter e_grouped (listEnabledEditors_spec settings) = [] then []
             else [parent_item file (filter e_grouped (listEnabledEditors_spec settings))])"
    by (simp add: addEditorMenuItems_eq)
  with assms(2) consider
      editor where "item = ungrouped_item file editor"
    | "item = parent_item file (filter e_grouped (listEnabledEditors_spec settings))"
    by (auto split: if_splits)
  then show ?thesis
    using assms(3) by cases (auto simp: handlers_ungrouped handlers_parent)
qed


section \<open>Contributing menu entries\<close>

text \<open>
  Claim C4. Let \<open>editors\<close> be the enabled editors. \<open>addEditorMenuItems\<close> appends to the
  menu one entry per ungrouped editor, titled \<open>Open in\<close> and the editor's name, and
  then, if and only if some enabled editor is grouped, exactly one entry with a submenu,
  titled \<open>Open in External Editor\<close>, whose submenu has one entry per grouped editor. With
  no enabled editor nothing is added. With exactly an ungrouped editor \<open>A\<close> and a grouped
  editor \<open>B\<close> enabled, in either order, the entries added are the one for \<open>A\<close> and the
  parent entry whose submenu holds the one entry for \<open>B\<close>.
\<close>

theorem addEditorMenuItems_entries:
  assumes "getEnabledEditors settings = Inr editors"
  shows "\<exists>added.
     addEditorMenuItems settings menu file = Inr (menu @ added) \<and>
     added = map (ungrouped_item file) (filter (\<lambda>e. \<not> e_grouped e) editors)
             @ (if \<exists>e \<in> set editors. e_grouped e
                then [MenuItem ''Open in External Editor'' ''code'' None
                        (Some (map (sub_item file) (filter e_grouped editors)))]
                else []) \<and>
     length (filter (\<lambda>item. submenu item \<noteq> None) added) =
       (if \<exists>e \<in> set editors. e_grouped e then 1 else 0) \<and>
     (editors = [] \<longrightarrow> added = []) \<and>
     (\<forall>A B. (editors = [A, B] \<or> editors = [B, A]) \<and> \<not> e_grouped A \<and> e_grouped B \<longrightarrow>
        added =
          [MenuItem (''Open in '' @ e_name A) ''code'' (Some (A, file)) None,
           MenuItem ''Open in External Editor'' ''code'' None
             (Some [MenuItem (e_name B) ''code'' (Some (B, file)) None])])"
proof -
  from assms have e: "listEnabledEditors_spec settings = editors"
    by (simp add: getEnabledEditors_eq)
  let ?added = "map (ungrouped_item file) (filter (\<lambda>e. \<not> e_grouped e) editors)
             @ (if \<exists>e \<in> set editors. e_grouped e
                then [MenuItem ''Open in External Editor'' ''code'' None
                        (Some (map (sub_item file) (filter e_grouped editors)))]
                else [])"
  have 1: "addEditorMenuItems settings menu file = Inr (menu @ ?added)"
    by (simp add: addEditorMenuItems_eq e filter_grouped_empty parent_item_eq)
  have 2: "length (filter (\<lambda>item. submenu item \<noteq> None) ?added) =
       (if \<exists>e \<in> set editors. e_grouped e then 1 else 0)"
    by (simp add: filter_empty_conv ungrouped_item_def)
  have 3: "editors = [] \<longrightarrow> ?added = []"
    by simp
  have 4: "\<forall>A B. (editors = [A, B] \<or> editors = [B, A]) \<and> \<not> e_grouped A \<and> e_grouped B \<longrightarrow>
        ?added =
          [MenuItem (''Open in '' @ e_name A) ''code'' (Some (A, file)) None,
           MenuItem ''Open in External Editor'' ''code'' None
             (Some [MenuItem (e_name B) ''code'' (Some (B, file)) None])]"
    by (auto simp: ungrouped_item_def sub_item_def)
  show ?thesis
    using 1 2 3 4 by (intro exI [of _ ?added] conjI) simp_all
qed

theorem addEditorMenuItems_entries_witness:
  "getEnabledEditors two_editor_settings = Inr [vscode_config, zed_config] \<and>
   \<not> e_grouped vscode_config \<and> e_grouped zed_config \<and>
   addEditorMenuItems two_editor_settings [] (Some (TFile ''note.md'')) =
     Inr [MenuItem ''Open in VS Code'' ''code'' (Some (vscode_config, Some (TFile ''note.md''))) None,
          MenuItem ''Open in External Editor'' ''code'' None
            (Some [MenuItem ''Zed'' ''code'' (Some (zed_config, Some (TFile ''note.md''))) None])] \<and>
   getEnabledEditors DEFAULT_SETTINGS = Inr [] \<and>
   addEditorMenuItems DEFAULT_SETTINGS [] (Some (TFile ''note.md'')) = Inr []"
proof -
  have g: "\<not> e_grouped vscode_config" "e_grouped zed_config"
    by (simp_all add: vscode_config_def zed_config_def)
  have n: "e_name vscode_config = ''VS Code''" "e_name zed_config = ''Zed''"
    by (simp_all add: vscode_config_def zed_config_def)
  have d: "getEnabledEditors DEFAULT_SETTINGS = Inr []"
    by (simp add: getEnabledEditors_def BUILT_IN_EDITORS_def DEFAULT_SETTINGS_def)
  from addEditorMenuItems_entries [OF two_editor_enabled, of "[]" "Some (TFile ''note.md'')"]
  obtain added where
    r: "addEditorMenuItems two_editor_settings [] (Some (TFile ''note.md'')) = Inr ([] @ added)"
    and ab: "\<forall>A B. ([vscode_config, zed_config] = [A, B] \<or> [vscode_config, zed_config] = [B, A]) \<and>
                 \<not> e_grouped A \<and> e_grouped B \<longrightarrow>
        added =
          [MenuItem (''Open in '' @ e_name A) ''code'' (Some (A, Some (TFile ''note.md''))) None,
           MenuItem ''Open in External Editor'' ''code'' None
             (Some [MenuItem (e_name B) ''code'' (Some (B, Some (TFile ''note.md''))) None])]"
    by blast
  from ab g have "added =
          [MenuItem (''Open in '' @ e_name vscode_config) ''code''
             (Some (vscode_config, Some (TFile ''note.md''))) None,
           MenuItem ''Open in External Editor'' ''code'' None
             (Some [MenuItem (e_name zed_config) ''code''
                (Some (zed_config, Some (TFile ''note.md''))) None])]"
    by blast
  with r have a: "addEditorMenuItems two_editor_settings [] (Some (TFile ''note.md'')) =
     Inr [MenuItem ''Open in VS Code'' ''code'' (Some (vscode_config, Some (TFile ''note.md''))) None,
          MenuItem ''Open in External Editor'' ''code'' None
            (Some [MenuItem ''Zed'' ''code'' (Some (zed_config, Some (TFile ''note.md''))) None])]"
    by (simp add: n)
  from addEditorMenuItems_entries [OF d, of "[]" "Some (TFile ''note.md'')"]
  obtain added0 where
    r0: "addEditorMenuItems DEFAULT_SETTINGS [] (Some (TFile ''note.md'')) = Inr ([] @ added0)"
    and e0: "([] :: EditorConfig list) = [] \<longrightarrow> added0 = []"
    by blast
  from r0 e0 have b: "addEditorMenuItems DEFAULT_SETTINGS [] (Some (TFile ''note.md'')) = Inr []"
    by simp
  show ?thesis
    using two_editor_enabled g a d b by simp
qed

text \<open>
  Claim C10. For a selection of several files, the \<open>files-menu\<close> listener contributes
  exactly what \<open>addEditorMenuItems\<close> contributes for the first selected file, whatever the
  other selected files are. Every click handler of the entries added, submenu entries
  included, has captured the first file, and calling it hands one command line to
  \<open>exec\<close>, built from the path of that file.
\<close>

theorem onFilesMenu_first_file_only:
  "onFilesMenu settings menu (f # fs) = addEditorMenuItems settings menu (Some f) \<and>
   onFilesMenu settings menu (f # fs) = onFilesMenu settings menu [f] \<and>
   (\<exists>added. onFilesMenu settings menu (f # fs) = Inr (menu @ added) \<and>
      (\<forall>item \<in> set added. \<forall>h \<in> set (handlers item).
         snd h = Some f \<and>
         exec_calls (snd (invoke host h w)) =
           exec_calls w @ [build_command (platform host) (fst h) (getFullPath host (path f))]))"
proof -
  have 1: "onFilesMenu settings menu (f # fs) = addEditorMenuItems settings menu (Some f)"
    by (simp add: onFilesMenu_def)
  have 2: "onFilesMenu settings menu (f # fs) = onFilesMenu settings menu [f]"
    by (simp add: onFilesMenu_def)
  obtain added where a: "addEditorMenuItems settings menu (Some f) = Inr (menu @ added)"
    using addEditorMenuItems_eq [of settings menu "Some f"] by simp
  have 3: "snd h = Some f \<and>
         exec_calls (snd (invoke host h w)) =
           exec_calls w @ [build_command (platform host) (fst h) (getFullPath host (path f))]"
    if "item \<in> set added" "h \<in> set (handlers item)" for item h
  proof -
    from added_handlers_target [OF a that] have t: "snd h = Some f" .
    then show ?thesis
      by (cases h) (simp add: invoke_def openInEditor_calls resolve_Some)
  qed
  have "onFilesMenu settings menu (f # fs) = Inr (menu @ added)"
    using 1 a by simp
  then have 4: "\<exists>added. onFilesMenu settings menu (f # fs) = Inr (menu @ added) \<and>
      (\<forall>item \<in> set added. \<forall>h \<in> set (handlers item).
         snd h = Some f \<and>
         exec_calls (snd (invoke host h w)) =
           exec_calls w @ [build_command (platform host) (fst h) (getFullPath host (path f))])"
    using 3 by blast
  show ?thesis
    using 1 2 4 by (intro conjI)
qed

theorem onFilesMenu_first_file_only_witness:
  \<open>onFilesMenu two_editor_settings [] [TFile ''note.md'', TFile ''other.md'', TFolder ''docs''] =
     Inr [MenuItem ''Open in VS Code'' ''code'' (Some (vscode_config, Some (TFile ''note.md''))) None,
          MenuItem ''Open in External Editor'' ''code'' None
            (Some [MenuItem ''Zed'' ''code'' (Some (zed_config, Some (TFile ''note.md''))) None])] \<and>
   handlers (MenuItem ''Open in External Editor'' ''code'' None
            (Some [MenuItem ''Zed'' ''code'' (Some (zed_config, Some (TFile ''note.md''))) None]))
     = [(zed_config, Some (TFile ''note.md''))] \<and>
   exec_calls (snd (invoke (vault_host ''linux'' (Exit 0)) (zed_config, Some (TFile ''note.md''))
                      quiet_world)) = [''zed "/vault/note.md"'']\<close>
proof -
  let ?files = "[TFile ''other.md'', TFolder ''docs'']"
  let ?zed = "MenuItem ''Open in External Editor'' ''code'' None
            (Some [MenuItem ''Zed'' ''code'' (Some (zed_config, Some (TFile ''note.md''))) None])"
  let ?menu = "[MenuItem ''Open in VS Code'' ''code'' (Some (vscode_config, Some (TFile ''note.md''))) None, ?zed]"
  have m: "addEditorMenuItems two_editor_settings [] (Some (TFile ''note.md'')) = Inr ?menu"
    by (simp add: addEditorMenuItems_def two_editor_enabled ungrouped_item_def sub_item_def
          parent_item_def vscode_config_def zed_config_def)
  have h: "handlers ?zed = [(zed_config, Some (TFile ''note.md''))]"
    by simp
  from onFilesMenu_first_file_only
         [of two_editor_settings "[]" "TFile ''note.md''" ?files
             "vault_host ''linux'' (Exit 0)" quiet_world]
  obtain added where o': "onFilesMenu two_editor_settings [] (TFile ''note.md'' # ?files) = Inr ([] @ added)"
    and c': "\<forall>item \<in> set added. \<forall>h \<in> set (handlers item).
         snd h = Some (TFile ''note.md'') \<and>
         exec_calls (snd (invoke (vault_host ''linux'' (Exit 0)) h quiet_world)) =
           exec_calls quiet_world @
             [build_command (platform (vault_host ''linux'' (Exit 0))) (fst h)
                (getFullPath (vault_host ''linux'' (Exit 0)) (path (TFile ''note.md'')))]"
    and f: "onFilesMenu two_editor_settings [] (TFile ''note.md'' # ?files) =
              addEditorMenuItems two_editor_settings [] (Some (TFile ''note.md''))"
    by blast
  from o' f m have added: "added = ?menu"
    by simp
  from o' added have o: "onFilesMenu two_editor_settings [] (TFile ''note.md'' # ?files) = Inr ?menu"
    by simp
  have zin: "?zed \<in> set added"
    using added by simp
  have hin: "(zed_config, Some (TFile ''note.md'')) \<in> set (handlers ?zed)"
    using h by simp
  from c' zin hin have "exec_calls (snd (invoke (vault_host ''linux'' (Exit 0))
                     (zed_config, Some (TFile ''note.md'')) quiet_world)) =
           exec_calls quiet_world @
             [build_command (platform (vault_host ''linux'' (Exit 0))) zed_config
                (getFullPath (vault_host ''linux'' (Exit 0)) (path (TFile ''note.md'')))]"
    by fastforce
  then have \<open>exec_calls (snd (invoke (vault_host ''linux'' (Exit 0))
                     (zed_config, Some (TFile ''note.md'')) quiet_world)) = [''zed "/vault/note.md"'']\<close>
    by (simp add: build_command_def vault_host_def quiet_world_def zed_config_def)
  with o h show ?thesis by simp
qed


section \<open>Facts about the ids of custom editors\<close>

lemma digit_cases:
  "d < 10 \<Longrightarrow>
   d = 0 \<or> d = 1 \<or> d = 2 \<or> d = 3 \<or> d = 4 \<or> d = 5 \<or> d = 6 \<or> d = 7 \<or> d = 8 \<or> d = (9::nat)"
  by arith

lemma digit_value_digit_char: "d < 10 \<Longrightarrow> digit_value (digit_char d) = d"
  using digit_cases [of d] by (auto simp: digit_value_def digit_char_def)

lemma digit_char_not_minus: "d < 10 \<Longrightarrow> digit_char d \<noteq> CHR ''-''"
  using digit_cases [of d] by (auto simp: digit_char_def)

lemma digits_value_snoc: "digits_value (s @ [c]) = 10 * digits_value s + digit_value c"
  by (simp add: digits_value_def)

lemma digits_value_digits: "digits_value (digits n) = n"
proof (induction n rule: digits.induct)
  case (1 n)
  show ?case
  proof (cases "n < 10")
    case True
    then show ?thesis
      by (subst digits.simps) (simp add: digits_value_def digit_value_digit_char)
  next
    case False
    with "1" have "digits_value (digits (n div 10)) = n div 10" by simp
    with False show ?thesis
      by (subst digits.simps) (simp add: digits_value_snoc digit_value_digit_char)
  qed
qed

lemma digits_no_minus: "CHR ''-'' \<notin> set (digits n)"
proof (induction n rule: digits.induct)
  case (1 n)
  show ?case
  proof (cases "n < 10")
    case True
    then show ?thesis
      using digit_char_not_minus [of n] by (subst digits.simps) auto
  next
    case False
    with "1" have "CHR ''-'' \<notin> set (digits (n div 10))" by simp
    moreover have "digit_char (n mod 10) \<noteq> CHR ''-''"
      by (rule digit_char_not_minus) simp
    ultimately show ?thesis
      using False by (subst digits.simps) auto
  qed
qed

lemma digits_inj: "digits m = digits n \<Longrightarrow> m = n"
  by (metis digits_value_digits)

lemma number_toString_inj: "number_toString a = number_toString b \<longleftrightarrow> a = b"
proof
  assume eq: "number_toString a = number_toString b"
  show "a = b"
  proof (cases "a < 0"; cases "b < 0")
    assume "a < 0" "b < 0"
    with eq have "nat (- a) = nat (- b)"
      by (simp add: number_toString_def digits_inj)
    with \<open>a < 0\<close> \<open>b < 0\<close> show ?thesis by simp
  next
    assume "a < 0" "\<not> b < 0"
    with eq have "CHR ''-'' \<in> set (digits (nat b))"
      by (metis number_toString_def list.set_intros(1))
    then show ?thesis by (simp add: digits_no_minus)
  next
    assume "\<not> a < 0" "b < 0"
    with eq have "CHR ''-'' \<in> set (digits (nat a))"
      by (metis number_toString_def list.set_intros(1))
    then show ?thesis by (simp add: digits_no_minus)
  next
    assume "\<not> a < 0" "\<not> b < 0"
    with eq have "nat a = nat b"
      by (simp add: number_toString_def digits_inj)
    with \<open>\<not> a < 0\<close> \<open>\<not> b < 0\<close> show ?thesis by simp
  qed
qed simp

lemma custom_id_inj: "inj custom_id"
  by (rule injI) (simp add: custom_id_def number_toString_inj)

lemma image_disjoint_iff: "(f ` A \<inter> g ` B = {}) = (\<forall>b \<in> B. g b \<notin> f ` A)"
  by (auto simp: image_iff) metis+

lemma add_clicks_ids:
  "map c_id (customEditors (add_clicks clock settings)) =
     map c_id (customEditors settings) @ map custom_id clock"
  by (induction clock arbitrary: settings) (simp_all add: addCustomEditor_def)


section \<open>Ids of custom editors\<close>

text \<open>
  Claim C8, as the code has it. After any sequence of clicks on the button the stored
  ids are the ids stored before followed, in order, by \<open>custom-\<close> and the decimal clock
  reading at each click. They are pairwise distinct exactly when the ids stored before
  were pairwise distinct, the clock readings of the clicks are pairwise distinct, and no
  click's id was stored before.
\<close>

theorem add_clicks_ids_distinct_iff:
  "map c_id (customEditors (add_clicks clock settings)) =
     map c_id (customEditors settings) @ map custom_id clock \<and>
   (distinct (map c_id (customEditors (add_clicks clock settings))) \<longleftrightarrow>
      distinct (map c_id (customEditors settings)) \<and> distinct clock \<and>
      (\<forall>now \<in> set clock. custom_id now \<notin> c_id ` set (customEditors settings)))"
proof -
  have "distinct (map custom_id clock) \<longleftrightarrow> distinct clock"
    using custom_id_inj by (simp add: distinct_map inj_on_def inj_def)
  moreover have "set (map c_id (customEditors settings)) \<inter> set (map custom_id clock) = {} \<longleftrightarrow>
      (\<forall>now \<in> set clock. custom_id now \<notin> c_id ` set (customEditors settings))"
    unfolding set_map by (rule image_disjoint_iff)
  ultimately show ?thesis
    unfolding add_clicks_ids distinct_append by blast
qed

theorem add_clicks_ids_distinct_iff_witness:
  "map c_id (customEditors (add_clicks [1700000000002, 1700000000003] sample_settings)) =
     [''custom-1700000000000'', ''custom-1700000000001'',
      ''custom-1700000000002'', ''custom-1700000000003''] \<and>
   distinct (map c_id (customEditors sample_settings)) \<and>
   distinct [1700000000002, 1700000000003 :: int] \<and>
   custom_id 1700000000002 \<notin> c_id ` set (customEditors sample_settings) \<and>
   custom_id 1700000000003 \<notin> c_id ` set (customEditors sample_settings) \<and>
   distinct (map c_id (customEditors (add_clicks [1700000000002, 1700000000003] sample_settings)))"
proof -
  have ids: "map c_id (customEditors sample_settings) =
               [''custom-1700000000000'', ''custom-1700000000001'']"
    by (simp add: sample_settings_def)
  have new: "map custom_id [1700000000002, 1700000000003] =
               [''custom-1700000000002'', ''custom-1700000000003'']"
    by (simp add: custom_id_def number_toString_def digits.simps digit_char_def)
  have d0: "distinct (map c_id (customEditors sample_settings))"
    by (simp add: ids)
  have d1: "distinct [1700000000002, 1700000000003 :: int]"
    by simp
  have f: "custom_id 1700000000002 \<notin> c_id ` set (customEditors sample_settings)"
          "custom_id 1700000000003 \<notin> c_id ` set (customEditors sample_settings)"
    using new by (simp_all add: sample_settings_def)
  from add_clicks_ids_distinct_iff [of "[1700000000002, 1700000000003]" sample_settings]
  have a: "map c_id (customEditors (add_clicks [1700000000002, 1700000000003] sample_settings)) =
            map c_id (customEditors sample_settings) @ map custom_id [1700000000002, 1700000000003]"
    and b: "distinct (map c_id (customEditors (add_clicks [1700000000002, 1700000000003] sample_settings))) \<longleftrightarrow>
      distinct (map c_id (customEditors sample_settings)) \<and>
      distinct [1700000000002, 1700000000003 :: int] \<and>
      (\<forall>now \<in> set [1700000000002, 1700000000003].
          custom_id now \<notin> c_id ` set (customEditors sample_settings))"
    by blast+
  from b d0 d1 f
  have dd: "distinct (map c_id (customEditors (add_clicks [1700000000002, 1700000000003] sample_settings)))"
    by simp
  from a have "map c_id (customEditors (add_clicks [1700000000002, 1700000000003] sample_settings)) =
     [''custom-1700000000000'', ''custom-1700000000001'',
      ''custom-1700000000002'', ''custom-1700000000003'']"
    by (simp only: ids new append.simps)
  with d0 d1 f dd show ?thesis by (intro conjI)
qed

text \<open>
  Claim C8, as stated, fails: two clicks at the same clock reading create two custom
  editors with the same id.
\<close>

theorem add_clicks_same_reading_counterexample:
  "map c_id (customEditors (add_clicks [1700000000000, 1700000000000] DEFAULT_SETTINGS)) =
     [''custom-1700000000000'', ''custom-1700000000000''] \<and>
   \<not> distinct (map c_id (customEditors (add_clicks [1700000000000, 1700000000000] DEFAULT_SETTINGS)))"
  by (simp add: addCustomEditor_def DEFAULT_SETTINGS_def custom_id_def number_toString_def
        digits.simps digit_char_def)


end
